theory Spec2Isabelle
  imports Main "HOL-Library.Sublist"
begin

section \<open>Values shared by the packages\<close>

text \<open>
  A decoded JSON value, as \<^verbatim>\<open>encoding/json\<close> stores it in an \<^verbatim>\<open>interface{}\<close>:
  \<^verbatim>\<open>nil\<close>, a bool, a number (kept as its literal text), a string, a slice or a map.
\<close>

datatype json =
    JNull
  | JBool bool
  | JNumber string
  | JString string
  | JArray "json list"
  | JObject "(string \<times> json) list"

text \<open>
  \<^verbatim>\<open>types.go\<close>: an error value is either a \<^verbatim>\<open>*RedfishError\<close> (message, code) or any
  other error (built with \<^verbatim>\<open>fmt.Errorf\<close>), of which only the message is kept.
\<close>

datatype go_error =
    RedfishError (Message: string) (Code: int)
  | OtherError string

fun Error :: "go_error \<Rightarrow> string" where
  "Error (RedfishError m c) = m"
| "Error (OtherError m) = m"

text \<open>\<^verbatim>\<open>IsRetryable\<close> (\<^verbatim>\<open>types.go\<close>).\<close>

fun IsRetryable :: "go_error \<Rightarrow> bool" where
  "IsRetryable (RedfishError m c) = (if c \<ge> 400 \<and> c < 500 then False else True)"
| "IsRetryable (OtherError m) = True"

text \<open>The verb \<^verbatim>\<open>%d\<close> of \<^verbatim>\<open>fmt\<close> on an \<^verbatim>\<open>int\<close>.\<close>

fun decimal :: "nat \<Rightarrow> string" where
  "decimal n =
     (if n < 10 then [''0123456789'' ! n]
      else decimal (n div 10) @ [''0123456789'' ! (n mod 10)])"

definition itoa :: "int \<Rightarrow> string" where
  "itoa i = (if i < 0 then ''-'' @ decimal (nat (- i)) else decimal (nat i))"

section \<open>The protocol client (\<^verbatim>\<open>pkg/redfish\<close>)\<close>

type_synonym AuthMethod = string

definition AuthMethodBasic :: AuthMethod where
  "AuthMethodBasic = ''basic''"

definition AuthMethodSession :: AuthMethod where
  "AuthMethodSession = ''session''"

text \<open>
  \<^verbatim>\<open>ClientConfig\<close>. Durations are in nanoseconds. \<^verbatim>\<open>BackoffFactor\<close> (a \<^verbatim>\<open>float64\<close>) is
  never read by the client and is left out.
\<close>

record ClientConfig =
  Address :: string
  Port :: int
  Username :: string
  Password :: string
  AuthMethod :: AuthMethod
  TLSServerCACert :: string
  InsecureSkipVerify :: bool
  MaxRetries :: int
  InitialDelay :: int
  MaxDelay :: int
  Jitter :: bool

definition DefaultClientConfig :: ClientConfig where
  "DefaultClientConfig =
     \<lparr>Address = [], Port = 443, Username = [], Password = [],
      AuthMethod = AuthMethodSession, TLSServerCACert = [],
      InsecureSkipVerify = False, MaxRetries = 3,
      InitialDelay = 1000000000, MaxDelay = 60 * 1000000000, Jitter = True\<rparr>"

text \<open>\<^verbatim>\<open>http.Header\<close> is a \<^verbatim>\<open>map[string][]string\<close>.\<close>

type_synonym Header = "string \<rightharpoonup> string list"

text \<open>
  \<^verbatim>\<open>Header.Set\<close> and \<^verbatim>\<open>Header.Get\<close>. Both canonicalise the key first; every key the
  client passes (\<^verbatim>\<open>Content-Type\<close>, \<^verbatim>\<open>Accept\<close>, \<^verbatim>\<open>Authorization\<close>, \<^verbatim>\<open>X-Auth-Token\<close>)
  is already in canonical form, so the key is used as it is.
\<close>

definition Header_Set :: "Header \<Rightarrow> string \<Rightarrow> string \<Rightarrow> Header" where
  "Header_Set h key v = h(key \<mapsto> [v])"

definition Header_Get :: "Header \<Rightarrow> string \<Rightarrow> string" where
  "Header_Get h key = (case h key of None \<Rightarrow> [] | Some [] \<Rightarrow> [] | Some (v # vs) \<Rightarrow> v)"

record RedfishResponse =
  StatusCode :: int
  Headers :: Header
  Data :: json

text \<open>The request handed to \<^verbatim>\<open>httpClient.Do\<close>; \<^verbatim>\<open>ReqBody = None\<close> is the nil body.\<close>

record http_request =
  Method :: string
  URL :: string
  ReqHeader :: Header
  ReqBody :: "string option"

text \<open>What came back: status line, header map, and the bytes \<^verbatim>\<open>io.ReadAll\<close> read.\<close>

record http_response =
  Status :: int
  RespHeader :: Header
  Body :: string

text \<open>
  Everything \<^verbatim>\<open>net/http\<close> can do with one request of the client: \<^verbatim>\<open>http.NewRequest\<close>
  rejects the method or URL, \<^verbatim>\<open>Do\<close> fails (network error, timeout), reading the body
  fails after the status line and headers arrived (the response then holds the bytes
  read before the failure), or a whole response arrives. The strings are the messages
  of the library's errors.
\<close>

datatype http_outcome =
    NewRequestFailed string
  | DoFailed string
  | ReadFailed string http_response
  | Responded http_response

text \<open>
  The world outside the repository: the functions of the standard library the client
  calls, and the network. \<^verbatim>\<open>http_exchange w k req\<close> is the outcome of the \<open>k\<close>-th
  exchange (counted from 0) of one call of the client, given the request it sends.
  \<^verbatim>\<open>json_Decode_map\<close> is \<^verbatim>\<open>json.NewDecoder(body).Decode\<close> into a
  \<^verbatim>\<open>map[string]interface{}\<close> (the error's message, or the map); \<^verbatim>\<open>json_Unmarshal\<close>
  is \<^verbatim>\<open>json.Unmarshal\<close> into an \<^verbatim>\<open>interface{}\<close>; \<^verbatim>\<open>json_Marshal\<close> returns the
  error's message or the bytes.
\<close>

record world =
  json_Marshal :: "json \<Rightarrow> string + string"
  json_Unmarshal :: "string \<Rightarrow> json option"
  json_Decode_map :: "string \<Rightarrow> string + (string \<rightharpoonup> json)"
  base64_Encode :: "string \<Rightarrow> string"
  http_exchange :: "nat \<Rightarrow> http_request \<Rightarrow> http_outcome"

text \<open>The \<^verbatim>\<open>http.Client\<close> built by \<^verbatim>\<open>NewClient\<close>: its timeout in seconds and TLS settings.\<close>

record http_Client =
  Timeout :: nat
  TLS_InsecureSkipVerify :: bool

record Client =
  config :: ClientConfig
  baseURL :: string
  httpClient :: "http_Client option"
  sessionToken :: string

definition NewClient :: "ClientConfig \<Rightarrow> Client" where
  "NewClient cfg =
     \<lparr>config = cfg,
      baseURL = ''https://'' @ Address cfg @ '':'' @ itoa (Port cfg),
      httpClient = Some \<lparr>Timeout = 30, TLS_InsecureSkipVerify = InsecureSkipVerify cfg\<rparr>,
      sessionToken = []\<rparr>"

subsection \<open>Login and logout\<close>

text \<open>
  In \<^verbatim>\<open>loginSession\<close> the body of a 200 or 201 response is read by the decoder, so a
  failing read surfaces as the decoder's error; on any other status the error of
  \<^verbatim>\<open>io.ReadAll\<close> is dropped and the bytes read so far go into the message.
\<close>

definition loginBasic :: "Client \<Rightarrow> Client \<times> go_error option" where
  "loginBasic c = (c, None)"

definition loginSession :: "world \<Rightarrow> Client \<Rightarrow> Client \<times> go_error option" where
  "loginSession w c =
     (let sessionURL = baseURL c @ ''/redfish/v1/SessionService/Sessions'';
          loginData = JObject [(''UserName'', JString (Username (config c))),
                               (''Password'', JString (Password (config c)))]
      in case json_Marshal w loginData of
           Inl m \<Rightarrow> (c, Some (OtherError (''failed to marshal login data: '' @ m)))
         | Inr jsonData \<Rightarrow>
             (case http_exchange w 0
                     \<lparr>Method = ''POST'', URL = sessionURL,
                      ReqHeader = Header_Set Map.empty ''Content-Type'' ''application/json'',
                      ReqBody = Some jsonData\<rparr> of
                NewRequestFailed m \<Rightarrow>
                  (c, Some (OtherError (''failed to create login request: '' @ m)))
              | DoFailed m \<Rightarrow> (c, Some (OtherError (''login request failed: '' @ m)))
              | ReadFailed m resp \<Rightarrow>
                  if Status resp \<noteq> 201 \<and> Status resp \<noteq> 200 then
                    (c, Some (RedfishError
                       (''login failed with status '' @ itoa (Status resp) @ '': '' @ Body resp)
                       (Status resp)))
                  else (c, Some (OtherError (''failed to decode session response: '' @ m)))
              | Responded resp \<Rightarrow>
                  if Status resp \<noteq> 201 \<and> Status resp \<noteq> 200 then
                    (c, Some (RedfishError
                       (''login failed with status '' @ itoa (Status resp) @ '': '' @ Body resp)
                       (Status resp)))
                  else
                    (case json_Decode_map w (Body resp) of
                       Inl m \<Rightarrow>
                         (c, Some (OtherError (''failed to decode session response: '' @ m)))
                     | Inr sessionResp \<Rightarrow>
                         if Header_Get (RespHeader resp) ''X-Auth-Token'' \<noteq> [] then
                           (c\<lparr>sessionToken := Header_Get (RespHeader resp) ''X-Auth-Token''\<rparr>,
                            None)
                         else
                           (case sessionResp ''token'' of
                              Some (JString token) \<Rightarrow> (c\<lparr>sessionToken := token\<rparr>, None)
                            | _ \<Rightarrow>
                              (c, Some (OtherError ''no session token found in response''))))))"

definition Login :: "world \<Rightarrow> Client \<Rightarrow> Client \<times> go_error option" where
  "Login w c =
     (if AuthMethod (config c) = AuthMethodBasic then loginBasic c
      else if AuthMethod (config c) = AuthMethodSession then loginSession w c
      else (c, Some (OtherError (''unsupported auth method: '' @ AuthMethod (config c)))))"

definition Logout :: "Client \<Rightarrow> Client \<times> go_error option" where
  "Logout c = (if sessionToken c = [] then (c, None) else (c\<lparr>sessionToken := []\<rparr>, None))"

text \<open>
  \<^verbatim>\<open>Close\<close> ignores what \<^verbatim>\<open>Logout\<close> returns; \<^verbatim>\<open>CloseIdleConnections\<close> (called when the
  http client is not nil) changes nothing of the client's fields.
\<close>

definition Close :: "Client \<Rightarrow> Client \<times> go_error option" where
  "Close c =
     (let c' = fst (Logout c)
      in case httpClient c' of None \<Rightarrow> (c', None) | Some h \<Rightarrow> (c', None))"

subsection \<open>One attempt\<close>

definition addAuthHeaders :: "world \<Rightarrow> Client \<Rightarrow> Header \<Rightarrow> Header \<times> go_error option" where
  "addAuthHeaders w c h =
     (if AuthMethod (config c) = AuthMethodBasic then
        (if Username (config c) \<noteq> [] \<and> Password (config c) \<noteq> [] then
           (Header_Set h ''Authorization''
              (''Basic '' @ base64_Encode w (Username (config c) @ '':'' @ Password (config c))),
            None)
         else (h, None))
      else if AuthMethod (config c) = AuthMethodSession then
        (if sessionToken c \<noteq> [] then (Header_Set h ''X-Auth-Token'' (sessionToken c), None)
         else (h, None))
      else (h, None))"

text \<open>The request \<^verbatim>\<open>doRequest\<close> has built when it calls \<^verbatim>\<open>httpClient.Do\<close>.\<close>

definition newRequest :: "world \<Rightarrow> Client \<Rightarrow> string \<Rightarrow> string \<Rightarrow> string option \<Rightarrow> http_request" where
  "newRequest w c method resourcePath body =
     \<lparr>Method = method,
      URL = (if prefix ''/'' resourcePath then baseURL c @ resourcePath
             else baseURL c @ ''/'' @ resourcePath),
      ReqHeader = fst (addAuthHeaders w c
         (Header_Set (Header_Set Map.empty ''Content-Type'' ''application/json'')
            ''Accept'' ''application/json'')),
      ReqBody = body\<rparr>"

definition doRequest ::
  "world \<Rightarrow> nat \<Rightarrow> Client \<Rightarrow> string \<Rightarrow> string \<Rightarrow> string option \<Rightarrow> go_error + RedfishResponse" where
  "doRequest w k c method resourcePath body =
     (case snd (addAuthHeaders w c
             (Header_Set (Header_Set Map.empty ''Content-Type'' ''application/json'')
                ''Accept'' ''application/json'')) of
        Some e \<Rightarrow> Inl (OtherError (''failed to add auth headers: '' @ Error e))
      | None \<Rightarrow>
          (case http_exchange w k (newRequest w c method resourcePath body) of
             NewRequestFailed m \<Rightarrow> Inl (OtherError (''failed to create request: '' @ m))
           | DoFailed m \<Rightarrow> Inl (RedfishError (''HTTP request failed: '' @ m) 0)
           | ReadFailed m resp \<Rightarrow>
               Inl (OtherError (''failed to read response body: '' @ m))
           | Responded resp \<Rightarrow>
               (let data = (if length (Body resp) > 0 then
                              (case json_Unmarshal w (Body resp) of
                                 None \<Rightarrow> JString (Body resp)
                               | Some v \<Rightarrow> v)
                            else JNull)
                in if Status resp \<ge> 400 then
                     Inl (RedfishError
                       (''HTTP '' @ itoa (Status resp) @ '': '' @ Body resp) (Status resp))
                   else
                     Inr \<lparr>StatusCode = Status resp, Headers = RespHeader resp,
                          Data = data\<rparr>)))"

subsection \<open>The retry loop\<close>

text \<open>
  Modelled from the spec: \<^verbatim>\<open>retry.Do\<close> of the module \<^verbatim>\<open>github.com/avast/retry-go\<close>
  (v3.0.0 in \<^verbatim>\<open>go.mod\<close>), which is not part of the repository. It calls the function
  at most \<open>attempts\<close> times, stops at the first call that returns no error (and then
  returns nil), stops at the first error that \<^verbatim>\<open>RetryIf\<close> rejects, and otherwise, once
  the attempts are used up, returns the log of the errors, which is not nil. Between two
  calls it sleeps (\<^verbatim>\<open>Delay\<close>, \<^verbatim>\<open>MaxDelay\<close>, \<^verbatim>\<open>BackOffDelay\<close>) and calls \<^verbatim>\<open>OnRetry\<close>, which
  only logs; neither changes what is returned, and neither is modelled. The function is
  a closure over variables of its caller: it takes their state \<open>s\<close> and returns the new
  one. The result is the error (the log), the state, and the number of calls made.
\<close>

function retry_Do_loop ::
  "(nat \<Rightarrow> 's \<Rightarrow> go_error option \<times> 's) \<Rightarrow> (go_error \<Rightarrow> bool) \<Rightarrow> nat \<Rightarrow>
   nat \<Rightarrow> go_error list \<Rightarrow> 's \<Rightarrow> go_error list option \<times> 's \<times> nat" where
  "retry_Do_loop retryableFunc retryIf attempts n errorLog s =
     (if n < attempts then
        (case retryableFunc n s of
           (None, s') \<Rightarrow> (None, s', Suc n)
         | (Some err, s') \<Rightarrow>
             if \<not> retryIf err then (Some (errorLog @ [err]), s', Suc n)
             else if n = attempts - 1 then (Some (errorLog @ [err]), s', Suc n)
             else retry_Do_loop retryableFunc retryIf attempts (Suc n) (errorLog @ [err]) s')
      else (Some errorLog, s, n))"
  by pat_completeness auto
termination
  by (relation "measure (\<lambda>(f, r, attempts, n, l, s). attempts - n)") auto

declare retry_Do_loop.simps [simp del]

definition retry_Do ::
  "(nat \<Rightarrow> 's \<Rightarrow> go_error option \<times> 's) \<Rightarrow> (go_error \<Rightarrow> bool) \<Rightarrow> nat \<Rightarrow> 's \<Rightarrow>
   go_error list option \<times> 's \<times> nat" where
  "retry_Do retryableFunc retryIf attempts s = retry_Do_loop retryableFunc retryIf attempts 0 [] s"

text \<open>The conversion \<^verbatim>\<open>uint(i)\<close> of a 64-bit \<^verbatim>\<open>int\<close>.\<close>

definition to_uint :: "int \<Rightarrow> nat" where
  "to_uint i = nat (i mod 2 ^ 64)"

text \<open>The variables \<^verbatim>\<open>lastResp\<close> and \<^verbatim>\<open>lastErr\<close> of \<^verbatim>\<open>request\<close>, which its closure sets.\<close>

record request_vars =
  lastResp :: "RedfishResponse option"
  lastErr :: "go_error option"

text \<open>
  \<^verbatim>\<open>request\<close> returns the pair of Go (response, error) and, with it, the number of
  times \<^verbatim>\<open>doRequest\<close> was called.
\<close>

definition request ::
  "world \<Rightarrow> Client \<Rightarrow> string \<Rightarrow> string \<Rightarrow> string option \<Rightarrow>
   (RedfishResponse option \<times> go_error option) \<times> nat" where
  "request w c method resourcePath body =
     (case retry_Do
             (\<lambda>k vars. case doRequest w k c method resourcePath body of
                          Inl err \<Rightarrow> (Some err, vars\<lparr>lastErr := Some err\<rparr>)
                        | Inr resp \<Rightarrow> (None, vars\<lparr>lastResp := Some resp\<rparr>))
             IsRetryable
             (to_uint (MaxRetries (config c) + 1))
             \<lparr>lastResp = None, lastErr = None\<rparr> of
        (Some errorLog, vars, calls) \<Rightarrow> ((None, lastErr vars), calls)
      | (None, vars, calls) \<Rightarrow> ((lastResp vars, None), calls))"

definition Get ::
  "world \<Rightarrow> Client \<Rightarrow> string \<Rightarrow> (RedfishResponse option \<times> go_error option) \<times> nat" where
  "Get w c resourcePath = request w c ''GET'' resourcePath None"

definition Post ::
  "world \<Rightarrow> Client \<Rightarrow> string \<Rightarrow> json \<Rightarrow> (RedfishResponse option \<times> go_error option) \<times> nat" where
  "Post w c resourcePath data =
     (case json_Marshal w data of
        Inl m \<Rightarrow> ((None, Some (OtherError (''failed to marshal request data: '' @ m))), 0)
      | Inr jsonData \<Rightarrow> request w c ''POST'' resourcePath (Some jsonData))"

definition Patch ::
  "world \<Rightarrow> Client \<Rightarrow> string \<Rightarrow> json \<Rightarrow> (RedfishResponse option \<times> go_error option) \<times> nat" where
  "Patch w c resourcePath data =
     (case json_Marshal w data of
        Inl m \<Rightarrow> ((None, Some (OtherError (''failed to marshal request data: '' @ m))), 0)
      | Inr jsonData \<Rightarrow> request w c ''PATCH'' resourcePath (Some jsonData))"

definition Delete ::
  "world \<Rightarrow> Client \<Rightarrow> string \<Rightarrow> (RedfishResponse option \<times> go_error option) \<times> nat" where
  "Delete w c resourcePath = request w c ''DELETE'' resourcePath None"

text \<open>
  \<^verbatim>\<open>GetWithHeaders\<close>. The loop ranges over the map \<^verbatim>\<open>targetHeaders\<close>, in an order Go
  leaves open; the standard names are distinct, so every order builds the same map.
\<close>

definition targetHeaders :: "(string \<times> string) list" where
  "targetHeaders =
     [(''allow'', ''Allow''),
      (''content-type'', ''Content-Type''),
      (''content-encoding'', ''Content-Encoding''),
      (''etag'', ''ETag''),
      (''link'', ''Link'')]"

definition extractHeaders :: "Header \<Rightarrow> Header" where
  "extractHeaders respHeaders =
     fold (\<lambda>(headerName, standardName) headers.
             case respHeaders headerName of
               None \<Rightarrow> headers
             | Some values \<Rightarrow>
                 if length values > 0 then headers(standardName \<mapsto> values) else headers)
          targetHeaders Map.empty"

text \<open>
  \<^verbatim>\<open>request\<close> returns neither a response nor an error when no attempt was made; reading
  \<^verbatim>\<open>resp.Headers\<close> through the nil pointer then panics.
\<close>

datatype 'a go_result = Returned 'a | Panic string

definition GetWithHeaders ::
  "world \<Rightarrow> Client \<Rightarrow> string \<Rightarrow>
   ((RedfishResponse option \<times> go_error option) \<times> nat) go_result" where
  "GetWithHeaders w c resourcePath =
     (case request w c ''GET'' resourcePath None of
        ((resp, Some err), calls) \<Rightarrow> Returned ((None, Some err), calls)
      | ((Some resp, None), calls) \<Rightarrow>
          Returned ((Some (resp\<lparr>Headers := extractHeaders (Headers resp)\<rparr>), None), calls)
      | ((None, None), calls) \<Rightarrow> Panic ''nil pointer dereference'')"

section \<open>The host registry (\<^verbatim>\<open>pkg/common\<close>)\<close>

text \<open>\<^verbatim>\<open>config.HostConfig\<close> and \<^verbatim>\<open>redfish.DiscoveredHost\<close>.\<close>

record HostConfig =
  host_Address :: string
  host_Port :: int
  host_Username :: string
  host_Password :: string
  host_AuthMethod :: string
  host_TLSServerCACert :: string

record DiscoveredHost =
  disc_Address :: string
  ServiceRoot :: string

text \<open>The two lists of the \<^verbatim>\<open>HostManager\<close>; its lock and logger hold no data.\<close>

record HostManager =
  staticHosts :: "HostConfig list"
  discoveredHosts :: "DiscoveredHost list"

definition UpdateDiscoveredHosts :: "HostManager \<Rightarrow> DiscoveredHost list \<Rightarrow> HostManager" where
  "UpdateDiscoveredHosts hm hosts = hm\<lparr>discoveredHosts := hosts\<rparr>"

text \<open>The map \<^verbatim>\<open>allHosts\<close> that \<^verbatim>\<open>GetHosts\<close> fills with its first two loops.\<close>

definition allHosts :: "HostManager \<Rightarrow> (string \<rightharpoonup> HostConfig)" where
  "allHosts hm =
     fold (\<lambda>discovered m.
             if m (disc_Address discovered) = None then
               m(disc_Address discovered \<mapsto>
                   \<lparr>host_Address = disc_Address discovered, host_Port = 0,
                    host_Username = [], host_Password = [], host_AuthMethod = [],
                    host_TLSServerCACert = []\<rparr>)
             else m)
          (discoveredHosts hm)
          (fold (\<lambda>host m. m(host_Address host \<mapsto> host)) (staticHosts hm) Map.empty)"

text \<open>
  The third loop ranges over the map, and Go leaves the order of that open: any list
  that names every key once is an order the loop may take.
\<close>

definition range_order :: "('k \<rightharpoonup> 'v) \<Rightarrow> 'k list \<Rightarrow> bool" where
  "range_order m ks \<longleftrightarrow> distinct ks \<and> set ks = dom m"

text \<open>\<^verbatim>\<open>GetHosts\<close>, given the order \<open>ks\<close> in which the last loop visits the keys.\<close>

definition GetHosts :: "HostManager \<Rightarrow> string list \<Rightarrow> HostConfig list" where
  "GetHosts hm ks = List.map_filter (allHosts hm) ks"

section \<open>Discovery (\<^verbatim>\<open>pkg/redfish/discovery.go\<close>)\<close>

subsection \<open>Strings\<close>

text \<open>
  Go strings are byte sequences. \<^verbatim>\<open>strings.TrimSpace\<close> removes the leading and the
  trailing runes that \<^verbatim>\<open>unicode.IsSpace\<close> accepts; these are their UTF-8 encodings.
\<close>

definition spaceRunes :: "string list" where
  "spaceRunes =
     [[CHR 0x09], [CHR 0x0A], [CHR 0x0B], [CHR 0x0C], [CHR 0x0D], [CHR 0x20],
      [CHR 0xC2, CHR 0x85], [CHR 0xC2, CHR 0xA0],
      [CHR 0xE1, CHR 0x9A, CHR 0x80],
      [CHR 0xE2, CHR 0x80, CHR 0x80], [CHR 0xE2, CHR 0x80, CHR 0x81],
      [CHR 0xE2, CHR 0x80, CHR 0x82], [CHR 0xE2, CHR 0x80, CHR 0x83],
      [CHR 0xE2, CHR 0x80, CHR 0x84], [CHR 0xE2, CHR 0x80, CHR 0x85],
      [CHR 0xE2, CHR 0x80, CHR 0x86], [CHR 0xE2, CHR 0x80, CHR 0x87],
      [CHR 0xE2, CHR 0x80, CHR 0x88], [CHR 0xE2, CHR 0x80, CHR 0x89],
      [CHR 0xE2, CHR 0x80, CHR 0x8A],
      [CHR 0xE2, CHR 0x80, CHR 0xA8], [CHR 0xE2, CHR 0x80, CHR 0xA9],
      [CHR 0xE2, CHR 0x80, CHR 0xAF],
      [CHR 0xE2, CHR 0x81, CHR 0x9F],
      [CHR 0xE3, CHR 0x80, CHR 0x80]]"

text \<open>The width in bytes of the space rune a string starts with, or ends with; 0 if none.\<close>

definition spaceWidth :: "string \<Rightarrow> nat" where
  "spaceWidth s = (case List.find (\<lambda>r. prefix r s) spaceRunes of None \<Rightarrow> 0 | Some r \<Rightarrow> length r)"

definition spaceWidthEnd :: "string \<Rightarrow> nat" where
  "spaceWidthEnd s = (case List.find (\<lambda>r. suffix r s) spaceRunes of None \<Rightarrow> 0 | Some r \<Rightarrow> length r)"

function TrimLeftSpace :: "string \<Rightarrow> string" where
  "TrimLeftSpace s =
     (if s = [] \<or> spaceWidth s = 0 then s else TrimLeftSpace (drop (spaceWidth s) s))"
  by pat_completeness auto
termination
  by (relation "measure length") auto

function TrimRightSpace :: "string \<Rightarrow> string" where
  "TrimRightSpace s =
     (if s = [] \<or> spaceWidthEnd s = 0 then s
      else TrimRightSpace (take (length s - spaceWidthEnd s) s))"
  by pat_completeness auto
termination
  by (relation "measure length") auto

declare TrimLeftSpace.simps [simp del] TrimRightSpace.simps [simp del]

definition TrimSpace :: "string \<Rightarrow> string" where
  "TrimSpace s = TrimRightSpace (TrimLeftSpace s)"

text \<open>\<^verbatim>\<open>strings.Split(s, "\n")\<close>.\<close>

fun Split_nl :: "string \<Rightarrow> string list" where
  "Split_nl [] = [[]]"
| "Split_nl (c # cs) =
     (if c = CHR 0x0A then [] # Split_nl cs
      else (case Split_nl cs of [] \<Rightarrow> [[c]] | l # ls \<Rightarrow> (c # l) # ls))"

subsection \<open>The two regular expressions\<close>

text \<open>The class \<^verbatim>\<open>\s\<close> of Go's \<^verbatim>\<open>regexp\<close>: tab, newline, form feed, carriage return, space.\<close>

definition reSpace :: "char \<Rightarrow> bool" where
  "reSpace c \<longleftrightarrow> c \<in> set [CHR 0x09, CHR 0x0A, CHR 0x0C, CHR 0x0D, CHR 0x20]"

text \<open>
  \<^verbatim>\<open>alRegex.FindStringSubmatch\<close> for \<^verbatim>\<open>(?i)^AL:\s*(.+)$\<close>: the first group if the text
  matches. The text must start with \<^verbatim>\<open>AL:\<close> in either letter case; the rest splits into
  white space, as much of it as possible, and the group, which runs to the end of the
  text, is not empty and holds no newline (\<^verbatim>\<open>.\<close> does not match one).
\<close>

definition alRegex_FindStringSubmatch :: "string \<Rightarrow> string option" where
  "alRegex_FindStringSubmatch s =
     (case s of
        a # l # colon # rest \<Rightarrow>
          if (a = CHR ''A'' \<or> a = CHR ''a'') \<and> (l = CHR ''L'' \<or> l = CHR ''l'') \<and>
             colon = CHR '':'' then
            (if dropWhile reSpace rest \<noteq> [] then
               (if CHR 0x0A \<in> set (dropWhile reSpace rest) then None
                else Some (dropWhile reSpace rest))
             else if rest \<noteq> [] \<and> last rest \<noteq> CHR 0x0A then Some [last rest]
             else None)
          else None
      | _ \<Rightarrow> None)"

text \<open>\<^verbatim>\<open>pathRegex.MatchString\<close> for \<^verbatim>\<open>^/redfish/v1/?$\<close>.\<close>

definition pathRegex_MatchString :: "string \<Rightarrow> bool" where
  "pathRegex_MatchString s \<longleftrightarrow>
     prefix ''/redfish/v1'' s \<and>
     (drop (length ''/redfish/v1'') s = [] \<or> drop (length ''/redfish/v1'') s = ''/'')"

subsection \<open>Validation of a response\<close>

fun parseAL_lines :: "string list \<Rightarrow> string" where
  "parseAL_lines [] = []"
| "parseAL_lines (line # lines) =
     (case alRegex_FindStringSubmatch (TrimSpace line) of
        Some m1 \<Rightarrow> TrimSpace m1
      | None \<Rightarrow> parseAL_lines lines)"

definition parseAL :: "string \<Rightarrow> string" where
  "parseAL response = parseAL_lines (Split_nl response)"

text \<open>The fields of a parsed \<^verbatim>\<open>url.URL\<close> that \<^verbatim>\<open>isValidServiceRoot\<close> reads.\<close>

record parsed_URL =
  Scheme :: string
  Host :: string
  Path :: string

text \<open>
  \<^verbatim>\<open>isValidServiceRoot\<close>. Its first argument is \<^verbatim>\<open>url.Parse\<close> of the standard library
  (\<open>None\<close> when it returns an error).
\<close>

definition isValidServiceRoot :: "(string \<Rightarrow> parsed_URL option) \<Rightarrow> string \<Rightarrow> bool" where
  "isValidServiceRoot url_Parse uri =
     (case url_Parse uri of
        None \<Rightarrow> False
      | Some parsed \<Rightarrow>
          if Scheme parsed \<noteq> ''https'' then False
          else if Host parsed = [] then False
          else if \<not> pathRegex_MatchString (Path parsed) then False
          else True)"

subsection \<open>The discovery cycle\<close>

text \<open>
  One call of \<^verbatim>\<open>conn.ReadFromUDP(buffer)\<close>: the read deadline has passed, or the read
  fails otherwise, or a datagram arrives from an address. \<^verbatim>\<open>ReadFrom addr response\<close>
  carries \<^verbatim>\<open>addr.IP.String()\<close> and \<^verbatim>\<open>string(buffer[:n])\<close>, the bytes the read put into
  the buffer of 1024 bytes.
\<close>

datatype udp_read =
    ReadTimeout
  | ReadError string
  | ReadFrom string string

text \<open>
  The network of one discovery cycle: the error of \<^verbatim>\<open>net.DialUDP\<close> and of \<^verbatim>\<open>conn.Write\<close>
  if any, and what the reads return, in order. The deadline set before the first read
  makes every read after it time out, so a list that ends without a timeout is
  followed by one.
\<close>

record ssdp_net =
  DialUDP_error :: "string option"
  Write_error :: "string option"
  reads :: "udp_read list"

text \<open>The loop of \<^verbatim>\<open>Discover\<close>, with the slice \<^verbatim>\<open>hosts\<close> built so far.\<close>

fun readLoop ::
  "(string \<Rightarrow> parsed_URL option) \<Rightarrow> udp_read list \<Rightarrow> DiscoveredHost list \<Rightarrow> DiscoveredHost list" where
  "readLoop url_Parse [] hosts = hosts"
| "readLoop url_Parse (ReadTimeout # rs) hosts = hosts"
| "readLoop url_Parse (ReadError m # rs) hosts = readLoop url_Parse rs hosts"
| "readLoop url_Parse (ReadFrom addr response # rs) hosts =
     (if parseAL response \<noteq> [] \<and> isValidServiceRoot url_Parse (parseAL response) then
        readLoop url_Parse rs
          (hosts @ [\<lparr>disc_Address = addr, ServiceRoot = parseAL response\<rparr>])
      else readLoop url_Parse rs hosts)"

definition Discover ::
  "(string \<Rightarrow> parsed_URL option) \<Rightarrow> ssdp_net \<Rightarrow> go_error + DiscoveredHost list" where
  "Discover url_Parse net =
     (case DialUDP_error net of
        Some m \<Rightarrow> Inl (OtherError (''failed to create UDP socket: '' @ m))
      | None \<Rightarrow>
          (case Write_error net of
             Some m \<Rightarrow> Inl (OtherError (''failed to send M-SEARCH: '' @ m))
           | None \<Rightarrow> Inr (readLoop url_Parse (reads net) [])))"

subsection \<open>The validation as the specification words it\<close>

text \<open>
  The specification's first check: a line of the response is an AL header when, with
  the surrounding white space removed, it starts with \<^verbatim>\<open>AL:\<close> in any letter case and goes
  on after the colon; its value is what follows the colon, white space removed. The
  first such line wins.
\<close>

definition spec_is_AL_header :: "string \<Rightarrow> bool" where
  "spec_is_AL_header line \<longleftrightarrow>
     (case line of
        a # l # colon # v \<Rightarrow>
          (a = CHR ''A'' \<or> a = CHR ''a'') \<and> (l = CHR ''L'' \<or> l = CHR ''l'') \<and>
          colon = CHR '':'' \<and> v \<noteq> []
      | _ \<Rightarrow> False)"

definition spec_AL_value :: "string \<Rightarrow> string" where
  "spec_AL_value line = TrimSpace (drop 3 line)"

definition spec_first_AL_header :: "string \<Rightarrow> string option" where
  "spec_first_AL_header response =
     (case List.find spec_is_AL_header (map TrimSpace (Split_nl response)) of
        None \<Rightarrow> None
      | Some line \<Rightarrow> Some (spec_AL_value line))"

text \<open>
  The second check, on the value of that header: it parses as a URI whose scheme is
  \<^verbatim>\<open>https\<close>, whose host is not empty and whose path is \<^verbatim>\<open>/redfish/v1\<close> or
  \<^verbatim>\<open>/redfish/v1/\<close>. A response contributes a host when both checks pass.
\<close>

definition spec_contributes :: "(string \<Rightarrow> parsed_URL option) \<Rightarrow> string \<Rightarrow> bool" where
  "spec_contributes url_Parse response \<longleftrightarrow>
     (case spec_first_AL_header response of
        None \<Rightarrow> False
      | Some uri \<Rightarrow>
          (case url_Parse uri of
             None \<Rightarrow> False
           | Some u \<Rightarrow>
               Scheme u = ''https'' \<and> Host u \<noteq> [] \<and>
               (Path u = ''/redfish/v1'' \<or> Path u = ''/redfish/v1/'')))"

text \<open>The responses of a cycle: what was read, in order, until the first timeout.\<close>

fun spec_responses :: "udp_read list \<Rightarrow> (string \<times> string) list" where
  "spec_responses [] = []"
| "spec_responses (ReadTimeout # rs) = []"
| "spec_responses (ReadError m # rs) = spec_responses rs"
| "spec_responses (ReadFrom addr response # rs) = (addr, response) # spec_responses rs"


section \<open>Properties of the retry loop\<close>

lemma addAuthHeaders_no_error: "snd (addAuthHeaders w c h) = None"
  by (simp add: addAuthHeaders_def)

lemma to_uint_retries:
  "0 \<le> r \<Longrightarrow> r < 2 ^ 63 \<Longrightarrow> to_uint (r + 1) = Suc (nat r)"
  by (simp add: to_uint_def Suc_nat_eq_nat_zadd1)

lemma doRequest_client_error:
  assumes "http_exchange w k (newRequest w c method path body) = Responded resp"
      and "400 \<le> Status resp"
  shows "doRequest w k c method path body =
           Inl (RedfishError (''HTTP '' @ itoa (Status resp) @ '': '' @ Body resp) (Status resp))"
  using assms by (simp add: doRequest_def addAuthHeaders_no_error Let_def)

lemma request_first_not_retryable:
  assumes "0 < to_uint (MaxRetries (config c) + 1)"
      and "doRequest w 0 c method path body = Inl e"
      and "\<not> IsRetryable e"
  shows "request w c method path body = ((None, Some e), 1)"
  using assms by (simp add: request_def retry_Do_def retry_Do_loop.simps)

lemma retry_loop_all_fail:
  fixes g :: "nat \<Rightarrow> go_error + RedfishResponse"
  defines "F \<equiv> (\<lambda>k vars. case g k of
                          Inl err \<Rightarrow> (Some err, vars\<lparr>lastErr := Some err\<rparr>)
                        | Inr resp \<Rightarrow> (None, vars\<lparr>lastResp := Some resp\<rparr>))"
  assumes "\<forall>k. n \<le> k \<and> k < attempts \<longrightarrow> (\<exists>e. g k = Inl e \<and> retryIf e)"
      and "n < attempts"
      and "g (attempts - 1) = Inl e"
  shows "\<exists>log'. retry_Do_loop F retryIf attempts n log vars =
           (Some log', vars\<lparr>lastErr := Some e\<rparr>, attempts)"
  using assms(2-)
proof (induction "attempts - n" arbitrary: n log vars)
  case 0
  then show ?case by simp
next
  case (Suc d)
  from Suc.prems obtain e' where e': "g n = Inl e'" "retryIf e'" by auto
  show ?case
  proof (cases "n = attempts - 1")
    case True
    with Suc.prems e' show ?thesis
      by (subst retry_Do_loop.simps) (simp add: F_def)
  next
    case False
    with Suc.prems have lt: "Suc n < attempts" by arith
    from Suc.hyps(2) have d: "d = attempts - Suc n" by arith
    from Suc.prems have all: "\<forall>k. Suc n \<le> k \<and> k < attempts \<longrightarrow> (\<exists>e. g k = Inl e \<and> retryIf e)"
      by auto
    from Suc.hyps(1)[OF d all lt Suc.prems(3)]
    obtain log' where
      "retry_Do_loop F retryIf attempts (Suc n) (log @ [e']) (vars\<lparr>lastErr := Some e'\<rparr>) =
         (Some log', vars\<lparr>lastErr := Some e'\<rparr>\<lparr>lastErr := Some e\<rparr>, attempts)"
      by blast
    with False Suc.prems e' show ?thesis
      by (subst retry_Do_loop.simps) (simp add: F_def)
  qed
qed

lemma request_all_fail:
  assumes "0 \<le> MaxRetries (config c)" "MaxRetries (config c) < 2 ^ 63"
      and "\<forall>k \<le> nat (MaxRetries (config c)).
             \<exists>e. doRequest w k c method path body = Inl e \<and> IsRetryable e"
      and "doRequest w (nat (MaxRetries (config c))) c method path body = Inl e"
  shows "request w c method path body = ((None, Some e), nat (MaxRetries (config c)) + 1)"
proof -
  let ?N = "nat (MaxRetries (config c))"
  have att: "to_uint (MaxRetries (config c) + 1) = Suc ?N"
    using assms(1,2) by (rule to_uint_retries)
  have "\<exists>log'. retry_Do_loop (\<lambda>k vars. case doRequest w k c method path body of
                          Inl err \<Rightarrow> (Some err, vars\<lparr>lastErr := Some err\<rparr>)
                        | Inr resp \<Rightarrow> (None, vars\<lparr>lastResp := Some resp\<rparr>)) IsRetryable (Suc ?N) 0 []
             \<lparr>lastResp = None, lastErr = None\<rparr> =
           (Some log', \<lparr>lastResp = None, lastErr = None\<rparr>\<lparr>lastErr := Some e\<rparr>, Suc ?N)"
    by (rule retry_loop_all_fail) (use assms(3,4) in auto)
  then show ?thesis
    by (auto simp: request_def retry_Do_def att)
qed

lemma GetWithHeaders_error:
  "request w c ''GET'' path None = ((None, Some e), n) \<Longrightarrow>
   GetWithHeaders w c path = Returned ((None, Some e), n)"
  by (simp add: GetWithHeaders_def)

lemma doRequest_network_error:
  assumes "http_exchange w k (newRequest w c method path body) = DoFailed m"
  shows "doRequest w k c method path body = Inl (RedfishError (''HTTP request failed: '' @ m) 0)"
  using assms by (simp add: doRequest_def addAuthHeaders_no_error)

text \<open>
  C1. A first attempt that is answered with a status from 400 to 499 is the only
  attempt: \<^verbatim>\<open>doRequest\<close> turns the response into a \<^verbatim>\<open>RedfishError\<close> carrying that status,
  \<^verbatim>\<open>IsRetryable\<close> rejects it, and \<^verbatim>\<open>request\<close> (and with it \<^verbatim>\<open>Get\<close>, \<^verbatim>\<open>GetWithHeaders\<close>,
  \<^verbatim>\<open>Delete\<close>, \<^verbatim>\<open>Post\<close> and \<^verbatim>\<open>Patch\<close>) returns that very error after one call of
  \<^verbatim>\<open>doRequest\<close>. The retry count is a non-negative \<^verbatim>\<open>int\<close>.
\<close>

theorem C1_client_error_one_attempt:
  assumes "0 \<le> MaxRetries (config c)" and "MaxRetries (config c) < 2 ^ 63"
      and "http_exchange w 0 (newRequest w c method path body) = Responded resp"
      and "400 \<le> Status resp" and "Status resp \<le> 499"
  shows "(let e = RedfishError (''HTTP '' @ itoa (Status resp) @ '': '' @ Body resp) (Status resp)
          in doRequest w 0 c method path body = Inl e \<and> \<not> IsRetryable e \<and>
             request w c method path body = ((None, Some e), 1) \<and>
             (method = ''GET'' \<and> body = None \<longrightarrow>
                Get w c path = ((None, Some e), 1) \<and>
                GetWithHeaders w c path = Returned ((None, Some e), 1)) \<and>
             (method = ''DELETE'' \<and> body = None \<longrightarrow> Delete w c path = ((None, Some e), 1)) \<and>
             (\<forall>data jsonData. json_Marshal w data = Inr jsonData \<and> body = Some jsonData \<longrightarrow>
                (method = ''POST'' \<longrightarrow> Post w c path data = ((None, Some e), 1)) \<and>
                (method = ''PATCH'' \<longrightarrow> Patch w c path data = ((None, Some e), 1))))"
proof -
  let ?e = "RedfishError (''HTTP '' @ itoa (Status resp) @ '': '' @ Body resp) (Status resp)"
  have att: "0 < to_uint (MaxRetries (config c) + 1)"
    using assms(1,2) by (simp add: to_uint_retries)
  have one: "doRequest w 0 c method path body = Inl ?e"
    using assms(3,4) by (rule doRequest_client_error)
  have no: "\<not> IsRetryable ?e"
    using assms(4,5) by simp
  have req: "request w c method path body = ((None, Some ?e), 1)"
    using att one no by (rule request_first_not_retryable)
  have get: "method = ''GET'' \<and> body = None \<longrightarrow>
                Get w c path = ((None, Some ?e), 1) \<and>
                GetWithHeaders w c path = Returned ((None, Some ?e), 1)"
    using req by (auto simp: Get_def intro: GetWithHeaders_error)
  have del: "method = ''DELETE'' \<and> body = None \<longrightarrow> Delete w c path = ((None, Some ?e), 1)"
    using req by (auto simp: Delete_def)
  have post: "\<forall>data jsonData. json_Marshal w data = Inr jsonData \<and> body = Some jsonData \<longrightarrow>
                (method = ''POST'' \<longrightarrow> Post w c path data = ((None, Some ?e), 1)) \<and>
                (method = ''PATCH'' \<longrightarrow> Patch w c path data = ((None, Some ?e), 1))"
    using req by (auto simp: Post_def Patch_def)
  from one no req get del post show ?thesis
    unfolding Let_def by blast
qed

theorem C1_client_error_one_attempt_witness:
  "request
     \<lparr>json_Marshal = (\<lambda>j. Inr ''{}''), json_Unmarshal = (\<lambda>b. None),
      json_Decode_map = (\<lambda>b. Inl ''EOF''), base64_Encode = (\<lambda>s. s),
      http_exchange = (\<lambda>k req. Responded \<lparr>Status = 404, RespHeader = Map.empty, Body = ''gone''\<rparr>)\<rparr>
     (NewClient DefaultClientConfig) ''GET'' ''/redfish/v1/Systems/1'' None =
   ((None, Some (RedfishError ''HTTP 404: gone'' 404)), 1) \<and>
   GetWithHeaders
     \<lparr>json_Marshal = (\<lambda>j. Inr ''{}''), json_Unmarshal = (\<lambda>b. None),
      json_Decode_map = (\<lambda>b. Inl ''EOF''), base64_Encode = (\<lambda>s. s),
      http_exchange = (\<lambda>k req. Responded \<lparr>Status = 404, RespHeader = Map.empty, Body = ''gone''\<rparr>)\<rparr>
     (NewClient DefaultClientConfig) ''/redfish/v1/Systems/1'' =
   Returned ((None, Some (RedfishError ''HTTP 404: gone'' 404)), 1)"
  using C1_client_error_one_attempt
    [of "NewClient DefaultClientConfig"
        "\<lparr>json_Marshal = (\<lambda>j. Inr ''{}''), json_Unmarshal = (\<lambda>b. None),
          json_Decode_map = (\<lambda>b. Inl ''EOF''), base64_Encode = (\<lambda>s. s),
          http_exchange = (\<lambda>k req. Responded \<lparr>Status = 404, RespHeader = Map.empty, Body = ''gone''\<rparr>)\<rparr>"
        "''GET''" "''/redfish/v1/Systems/1''" None
        "\<lparr>Status = 404, RespHeader = Map.empty, Body = ''gone''\<rparr>"]
  by (simp add: NewClient_def DefaultClientConfig_def itoa_def Let_def)

text \<open>
  C2. When every attempt fails with a network-level error (code 0) or is answered with
  a status of 500 or more, \<^verbatim>\<open>doRequest\<close> is called exactly \<^verbatim>\<open>MaxRetries + 1\<close> times, and
  what \<^verbatim>\<open>request\<close> returns is the error of the last of these calls, not the log of
  errors \<^verbatim>\<open>retry.Do\<close> returns. The retry count is a non-negative \<^verbatim>\<open>int\<close>.
\<close>

theorem C2_retryable_errors_use_all_attempts:
  assumes "0 \<le> MaxRetries (config c)" and "MaxRetries (config c) < 2 ^ 63"
      and "\<forall>k \<le> nat (MaxRetries (config c)).
             (\<exists>m. http_exchange w k (newRequest w c method path body) = DoFailed m) \<or>
             (\<exists>resp. http_exchange w k (newRequest w c method path body) = Responded resp \<and>
                     500 \<le> Status resp)"
  shows "\<exists>e. doRequest w (nat (MaxRetries (config c))) c method path body = Inl e \<and>
             request w c method path body = ((None, Some e), nat (MaxRetries (config c)) + 1) \<and>
             (method = ''GET'' \<and> body = None \<longrightarrow>
                Get w c path = ((None, Some e), nat (MaxRetries (config c)) + 1) \<and>
                GetWithHeaders w c path = Returned ((None, Some e), nat (MaxRetries (config c)) + 1))"
proof -
  let ?N = "nat (MaxRetries (config c))"
  have fail: "\<forall>k \<le> ?N. \<exists>e. doRequest w k c method path body = Inl e \<and> IsRetryable e"
  proof (intro allI impI)
    fix k assume "k \<le> ?N"
    with assms(3) consider
        m where "http_exchange w k (newRequest w c method path body) = DoFailed m"
      | resp where "http_exchange w k (newRequest w c method path body) = Responded resp"
          "500 \<le> Status resp"
      by blast
    then show "\<exists>e. doRequest w k c method path body = Inl e \<and> IsRetryable e"
    proof cases
      case 1
      then show ?thesis by (simp add: doRequest_network_error)
    next
      case 2
      then show ?thesis by (simp add: doRequest_client_error)
    qed
  qed
  then obtain e where e: "doRequest w ?N c method path body = Inl e" by blast
  have req: "request w c method path body = ((None, Some e), ?N + 1)"
    using assms(1,2) fail e by (rule request_all_fail)
  have "method = ''GET'' \<and> body = None \<longrightarrow>
          Get w c path = ((None, Some e), ?N + 1) \<and>
          GetWithHeaders w c path = Returned ((None, Some e), ?N + 1)"
    using req by (auto simp: Get_def intro: GetWithHeaders_error)
  with e req show ?thesis by blast
qed

theorem C2_retryable_errors_use_all_attempts_witness:
  "request
     \<lparr>json_Marshal = (\<lambda>j. Inr ''{}''), json_Unmarshal = (\<lambda>b. None),
      json_Decode_map = (\<lambda>b. Inl ''EOF''), base64_Encode = (\<lambda>s. s),
      http_exchange = (\<lambda>k req. if k < 2 then DoFailed ''timeout''
         else Responded \<lparr>Status = 500 + int k, RespHeader = Map.empty, Body = ''busy''\<rparr>)\<rparr>
     (NewClient DefaultClientConfig) ''GET'' ''/redfish/v1/Systems/1'' None =
   ((None, Some (RedfishError ''HTTP 503: busy'' 503)), 4)"
  using C2_retryable_errors_use_all_attempts
    [of "NewClient DefaultClientConfig"
        "\<lparr>json_Marshal = (\<lambda>j. Inr ''{}''), json_Unmarshal = (\<lambda>b. None),
          json_Decode_map = (\<lambda>b. Inl ''EOF''), base64_Encode = (\<lambda>s. s),
          http_exchange = (\<lambda>k req. if k < 2 then DoFailed ''timeout''
            else Responded \<lparr>Status = 500 + int k, RespHeader = Map.empty, Body = ''busy''\<rparr>)\<rparr>"
        "''GET''" "''/redfish/v1/Systems/1''" None]
  by (simp add: NewClient_def DefaultClientConfig_def itoa_def Let_def doRequest_def
        addAuthHeaders_no_error)

section \<open>Properties of login, logout and authentication\<close>

lemma loginSession_accepted:
  assumes "json_Marshal w (JObject [(''UserName'', JString (Username (config c))),
                                    (''Password'', JString (Password (config c)))]) = Inr jsonData"
      and "http_exchange w 0
             \<lparr>Method = ''POST'', URL = baseURL c @ ''/redfish/v1/SessionService/Sessions'',
              ReqHeader = Header_Set Map.empty ''Content-Type'' ''application/json'',
              ReqBody = Some jsonData\<rparr> = Responded resp"
      and "Status resp = 200 \<or> Status resp = 201"
  shows "loginSession w c =
           (case json_Decode_map w (Body resp) of
              Inl m \<Rightarrow> (c, Some (OtherError (''failed to decode session response: '' @ m)))
            | Inr sessionResp \<Rightarrow>
                if Header_Get (RespHeader resp) ''X-Auth-Token'' \<noteq> [] then
                  (c\<lparr>sessionToken := Header_Get (RespHeader resp) ''X-Auth-Token''\<rparr>, None)
                else
                  (case sessionResp ''token'' of
                     Some (JString token) \<Rightarrow> (c\<lparr>sessionToken := token\<rparr>, None)
                   | _ \<Rightarrow> (c, Some (OtherError ''no session token found in response''))))"
  using assms(3)
proof
  assume "Status resp = 200"
  with assms(1,2) show ?thesis by (simp add: loginSession_def)
next
  assume "Status resp = 201"
  with assms(1,2) show ?thesis by (simp add: loginSession_def)
qed

lemma loginSession_rejected:
  assumes "json_Marshal w (JObject [(''UserName'', JString (Username (config c))),
                                    (''Password'', JString (Password (config c)))]) = Inr jsonData"
      and "http_exchange w 0
             \<lparr>Method = ''POST'', URL = baseURL c @ ''/redfish/v1/SessionService/Sessions'',
              ReqHeader = Header_Set Map.empty ''Content-Type'' ''application/json'',
              ReqBody = Some jsonData\<rparr> = Responded resp"
      and "Status resp \<noteq> 200" and "Status resp \<noteq> 201"
  shows "loginSession w c =
           (c, Some (RedfishError
                  (''login failed with status '' @ itoa (Status resp) @ '': '' @ Body resp)
                  (Status resp)))"
  using assms by (simp add: loginSession_def)

lemma loginSession_result:
  "(\<exists>e. loginSession w c = (c, Some e)) \<or>
   (\<exists>t. loginSession w c = (c\<lparr>sessionToken := t\<rparr>, None))"
proof (cases "json_Marshal w (JObject [(''UserName'', JString (Username (config c))),
                               (''Password'', JString (Password (config c)))])")
  case (Inl m)
  then show ?thesis by (simp add: loginSession_def)
next
  case (Inr jsonData)
  show ?thesis
  proof (cases "http_exchange w 0
                     \<lparr>Method = ''POST'', URL = baseURL c @ ''/redfish/v1/SessionService/Sessions'',
                      ReqHeader = Header_Set Map.empty ''Content-Type'' ''application/json'',
                      ReqBody = Some jsonData\<rparr>")
    case (NewRequestFailed m)
    with Inr show ?thesis by (simp add: loginSession_def)
  next
    case (DoFailed m)
    with Inr show ?thesis by (simp add: loginSession_def)
  next
    case (ReadFailed m resp)
    with Inr show ?thesis by (simp add: loginSession_def)
  next
    case (Responded resp)
    show ?thesis
    proof (cases "Status resp = 200 \<or> Status resp = 201")
      case False
      with Inr Responded show ?thesis by (simp add: loginSession_rejected)
    next
      case True
      note eq = loginSession_accepted [OF Inr Responded True]
      show ?thesis
      proof (cases "json_Decode_map w (Body resp)")
        case (Inl m)
        with eq show ?thesis by simp
      next
        case dec: (Inr sessionResp)
        show ?thesis
        proof (cases "Header_Get (RespHeader resp) ''X-Auth-Token'' \<noteq> []")
          case True
          with eq dec show ?thesis by auto
        next
          case False
          with eq dec show ?thesis
            by (cases "sessionResp ''token''"; cases "the (sessionResp ''token'')") auto
        qed
      qed
    qed
  qed
qed

lemma loginSession_error_keeps_client:
  "snd (loginSession w c) \<noteq> None \<Longrightarrow> fst (loginSession w c) = c"
  using loginSession_result [of w c] by auto


text \<open>
  C8. A login that returns an error leaves the client as it was. No error path of
  \<^verbatim>\<open>Login\<close> or \<^verbatim>\<open>loginSession\<close> writes the session token (a status other than 200 and
  201, a body that does not decode, no token in header or body, a request that
  fails), so a token that was empty before the login is empty after it.
\<close>

theorem C8_failed_login_leaves_no_token:
  assumes "snd (Login w c) \<noteq> None"
  shows "fst (Login w c) = c \<and>
         (AuthMethod (config c) = AuthMethodSession \<longrightarrow>
            snd (loginSession w c) \<noteq> None \<and> fst (loginSession w c) = c) \<and>
         (sessionToken c = [] \<longrightarrow> sessionToken (fst (Login w c)) = [])"
proof -
  have "fst (Login w c) = c"
    using assms loginSession_error_keeps_client [of w c]
    by (auto simp: Login_def loginBasic_def split: if_splits)
  moreover have "AuthMethod (config c) = AuthMethodSession \<longrightarrow>
            snd (loginSession w c) \<noteq> None \<and> fst (loginSession w c) = c"
    using assms loginSession_error_keeps_client [of w c]
    by (auto simp: Login_def AuthMethodBasic_def AuthMethodSession_def)
  ultimately show ?thesis by simp
qed

theorem C8_failed_login_leaves_no_token_witness:
  "Login
     \<lparr>json_Marshal = (\<lambda>j. Inr ''{}''), json_Unmarshal = (\<lambda>b. None),
      json_Decode_map = (\<lambda>b. Inl ''EOF''), base64_Encode = (\<lambda>s. s),
      http_exchange = (\<lambda>k req. Responded \<lparr>Status = 401, RespHeader = Map.empty, Body = ''denied''\<rparr>)\<rparr>
     (NewClient DefaultClientConfig) =
   (NewClient DefaultClientConfig, Some (RedfishError ''login failed with status 401: denied'' 401)) \<and>
   sessionToken (fst (Login
     \<lparr>json_Marshal = (\<lambda>j. Inr ''{}''), json_Unmarshal = (\<lambda>b. None),
      json_Decode_map = (\<lambda>b. Inl ''EOF''), base64_Encode = (\<lambda>s. s),
      http_exchange = (\<lambda>k req. Responded \<lparr>Status = 401, RespHeader = Map.empty, Body = ''denied''\<rparr>)\<rparr>
     (NewClient DefaultClientConfig))) = []"
  using C8_failed_login_leaves_no_token
    [of "\<lparr>json_Marshal = (\<lambda>j. Inr ''{}''), json_Unmarshal = (\<lambda>b. None),
          json_Decode_map = (\<lambda>b. Inl ''EOF''), base64_Encode = (\<lambda>s. s),
          http_exchange = (\<lambda>k req. Responded \<lparr>Status = 401, RespHeader = Map.empty, Body = ''denied''\<rparr>)\<rparr>"
        "NewClient DefaultClientConfig"]
  by (simp add: Login_def loginSession_def NewClient_def DefaultClientConfig_def
        AuthMethodBasic_def AuthMethodSession_def itoa_def Let_def)

text \<open>
  C9. \<^verbatim>\<open>Logout\<close> returns no error and leaves the token empty on every client; a second
  \<^verbatim>\<open>Logout\<close> changes nothing, and neither does \<^verbatim>\<open>Logout\<close> on a client that never logged
  in. \<^verbatim>\<open>Close\<close> returns no error on every client, a new one included.
\<close>

theorem C9_logout_idempotent_close_safe:
  "snd (Logout c) = None \<and> sessionToken (fst (Logout c)) = [] \<and>
   Logout (fst (Logout c)) = (fst (Logout c), None) \<and>
   Logout (NewClient cfg) = (NewClient cfg, None) \<and>
   Close (NewClient cfg) = (NewClient cfg, None) \<and>
   snd (Close c) = None \<and> sessionToken (fst (Close c)) = []"
  by (simp add: Logout_def Close_def NewClient_def split: option.splits)

text \<open>
  C10. With the basic method a request carries the \<^verbatim>\<open>Authorization\<close> header if and only
  if the configured user name and password are both non-empty, and the header then
  holds the basic credentials of the two. Such a request never carries
  \<^verbatim>\<open>X-Auth-Token\<close>, and \<^verbatim>\<open>addAuthHeaders\<close> returns no error.
\<close>

theorem C10_basic_auth_header:
  assumes "AuthMethod (config c) = AuthMethodBasic"
  shows "snd (addAuthHeaders w c h) = None \<and>
         (ReqHeader (newRequest w c method path body) ''Authorization'' \<noteq> None \<longleftrightarrow>
            Username (config c) \<noteq> [] \<and> Password (config c) \<noteq> []) \<and>
         (Username (config c) \<noteq> [] \<and> Password (config c) \<noteq> [] \<longrightarrow>
            ReqHeader (newRequest w c method path body) ''Authorization'' =
              Some [''Basic '' @
                    base64_Encode w (Username (config c) @ '':'' @ Password (config c))]) \<and>
         ReqHeader (newRequest w c method path body) ''X-Auth-Token'' = None"
  using assms by (simp add: addAuthHeaders_def newRequest_def Header_Set_def)

theorem C10_basic_auth_header_witness:
  "ReqHeader (newRequest
      \<lparr>json_Marshal = (\<lambda>j. Inr ''{}''), json_Unmarshal = (\<lambda>b. None),
       json_Decode_map = (\<lambda>b. Inl ''EOF''), base64_Encode = (\<lambda>s. ''YWRtaW46c2VjcmV0''),
       http_exchange = (\<lambda>k req. DoFailed ''timeout'')\<rparr>
      (NewClient (DefaultClientConfig\<lparr>AuthMethod := AuthMethodBasic, Username := ''admin'',
                                       Password := ''secret''\<rparr>))
      ''GET'' ''/redfish/v1'' None) ''Authorization'' = Some [''Basic YWRtaW46c2VjcmV0''] \<and>
   ReqHeader (newRequest
      \<lparr>json_Marshal = (\<lambda>j. Inr ''{}''), json_Unmarshal = (\<lambda>b. None),
       json_Decode_map = (\<lambda>b. Inl ''EOF''), base64_Encode = (\<lambda>s. ''YWRtaW46c2VjcmV0''),
       http_exchange = (\<lambda>k req. DoFailed ''timeout'')\<rparr>
      (NewClient (DefaultClientConfig\<lparr>AuthMethod := AuthMethodBasic, Username := ''admin'',
                                       Password := ''secret''\<rparr>))
      ''GET'' ''/redfish/v1'' None) ''X-Auth-Token'' = None"
  using C10_basic_auth_header
    [of "NewClient (DefaultClientConfig\<lparr>AuthMethod := AuthMethodBasic, Username := ''admin'',
                                          Password := ''secret''\<rparr>)"
        "\<lparr>json_Marshal = (\<lambda>j. Inr ''{}''), json_Unmarshal = (\<lambda>b. None),
          json_Decode_map = (\<lambda>b. Inl ''EOF''), base64_Encode = (\<lambda>s. ''YWRtaW46c2VjcmV0''),
          http_exchange = (\<lambda>k req. DoFailed ''timeout'')\<rparr>"
        Map.empty "''GET''" "''/redfish/v1''" None]
  by (simp add: NewClient_def DefaultClientConfig_def)





section \<open>Properties of a successful request\<close>









lemma extractHeaders_without_lower_case_keys:
  assumes "h ''allow'' = None" and "h ''content-type'' = None"
      and "h ''content-encoding'' = None" and "h ''etag'' = None" and "h ''link'' = None"
  shows "extractHeaders h = Map.empty"
  using assms by (simp add: extractHeaders_def targetHeaders_def)

text \<open>
  C6. What \<^verbatim>\<open>GetWithHeaders\<close> does with the header map of a response as \<^verbatim>\<open>net/http\<close>
  delivers it, its keys in canonical form (\<^verbatim>\<open>Etag\<close>, \<^verbatim>\<open>Content-Type\<close>): the loop looks
  the map up under the lower-case names \<^verbatim>\<open>etag\<close> and \<^verbatim>\<open>content-type\<close>, finds nothing,
  and the returned header map is empty, although the response carries two headers of
  the allow-list.
\<close>

theorem C6_canonical_keys_are_missed:
  "GetWithHeaders
     \<lparr>json_Marshal = (\<lambda>j. Inr ''{}''), json_Unmarshal = (\<lambda>b. Some (JObject [])),
      json_Decode_map = (\<lambda>b. Inl ''EOF''), base64_Encode = (\<lambda>s. s),
      http_exchange = (\<lambda>k req. Responded
         \<lparr>Status = 200,
          RespHeader = [''Etag'' \<mapsto> [CHR 0x22 # ''abc'' @ [CHR 0x22]],
                        ''Content-Type'' \<mapsto> [''application/json'']],
          Body = ''{}''\<rparr>)\<rparr>
     (NewClient DefaultClientConfig) ''/redfish/v1'' =
   Returned ((Some \<lparr>StatusCode = 200, Headers = Map.empty, Data = JObject []\<rparr>, None), 1)"
  by (simp add: GetWithHeaders_def request_def retry_Do_def retry_Do_loop.simps doRequest_def
        addAuthHeaders_no_error NewClient_def DefaultClientConfig_def to_uint_def
        extractHeaders_def targetHeaders_def)

section \<open>Properties of the host registry\<close>

lemma static_fold:
  "fold (\<lambda>host m. m(host_Address host \<mapsto> host)) xs m a =
     (if a \<in> host_Address ` set xs then Some (last (filter (\<lambda>s. host_Address s = a) xs))
      else m a)"
proof (induction xs arbitrary: m)
  case Nil
  then show ?case by simp
next
  case (Cons x xs)
  show ?case
  proof (cases "a \<in> host_Address ` set xs")
    case True
    then have "filter (\<lambda>s. host_Address s = a) xs \<noteq> []"
      by (auto simp: filter_empty_conv)
    with True Cons.IH show ?thesis by simp
  next
    case False
    then have "filter (\<lambda>s. host_Address s = a) xs = []"
      by (auto simp: filter_empty_conv)
    with False Cons.IH show ?thesis by auto
  qed
qed

lemma discovered_fold:
  "fold (\<lambda>discovered m.
             if m (disc_Address discovered) = None then
               m(disc_Address discovered \<mapsto>
                   \<lparr>host_Address = disc_Address discovered, host_Port = 0,
                    host_Username = [], host_Password = [], host_AuthMethod = [],
                    host_TLSServerCACert = []\<rparr>)
             else m) ds m a =
     (case m a of
        Some h \<Rightarrow> Some h
      | None \<Rightarrow>
          if a \<in> disc_Address ` set ds then
            Some \<lparr>host_Address = a, host_Port = 0, host_Username = [], host_Password = [],
                  host_AuthMethod = [], host_TLSServerCACert = []\<rparr>
          else None)"
proof (induction ds arbitrary: m)
  case Nil
  then show ?case by (simp split: option.split)
next
  case (Cons d ds)
  show ?case
    by (simp add: Cons.IH split: option.split) 
qed

lemma allHosts_lookup:
  "allHosts hm a =
     (if a \<in> host_Address ` set (staticHosts hm) then
        Some (last (filter (\<lambda>s. host_Address s = a) (staticHosts hm)))
      else if a \<in> disc_Address ` set (discoveredHosts hm) then
        Some \<lparr>host_Address = a, host_Port = 0, host_Username = [], host_Password = [],
              host_AuthMethod = [], host_TLSServerCACert = []\<rparr>
      else None)"
  by (simp add: allHosts_def discovered_fold static_fold)

lemma allHosts_dom:
  "dom (allHosts hm) =
     host_Address ` set (staticHosts hm) \<union> disc_Address ` set (discoveredHosts hm)"
  by (auto simp: dom_def allHosts_lookup split: if_splits)

lemma last_filter_address:
  "a \<in> host_Address ` set xs \<Longrightarrow> host_Address (last (filter (\<lambda>s. host_Address s = a) xs)) = a"
proof -
  assume "a \<in> host_Address ` set xs"
  then have ne: "filter (\<lambda>s. host_Address s = a) xs \<noteq> []"
    by (auto simp: filter_empty_conv)
  from last_in_set [OF ne] show ?thesis by simp
qed

lemma allHosts_key:
  "allHosts hm a = Some h \<Longrightarrow> host_Address h = a"
  by (auto simp: allHosts_lookup last_filter_address split: if_splits)

lemma GetHosts_map:
  assumes "range_order (allHosts hm) ks"
  shows "GetHosts hm ks = map (\<lambda>k. the (allHosts hm k)) ks"
proof -
  from assms have "\<forall>k \<in> set ks. allHosts hm k \<noteq> None"
    by (auto simp: range_order_def)
  then have "filter (\<lambda>k. allHosts hm k \<noteq> None) ks = ks"
    by (simp add: filter_id_conv)
  then show ?thesis
    by (simp add: GetHosts_def List.map_filter_def comp_def)
qed

lemma GetHosts_addresses:
  assumes "range_order (allHosts hm) ks"
  shows "map host_Address (GetHosts hm ks) = ks"
proof -
  have "\<forall>k \<in> set ks. host_Address (the (allHosts hm k)) = k"
    using assms allHosts_key [of hm] by (auto simp: range_order_def)
  then show ?thesis
    by (simp add: GetHosts_map [OF assms] comp_def map_idI)
qed

text \<open>
  C4. Whatever the order in which the last loop of \<^verbatim>\<open>GetHosts\<close> visits the map, the result
  has one entry for each address of the static and of the discovered list and no two
  entries with the same address. The entry of an address that a static host has is
  that static host, unchanged (the last one configured for the address), also when the
  address was discovered as well; the entry of any other address carries the address
  and nothing else: port 0 and empty user name, password, auth method and CA path.
\<close>

theorem C4_one_entry_per_address:
  assumes "range_order (allHosts hm) ks"
  shows "distinct (map host_Address (GetHosts hm ks)) \<and>
         set (map host_Address (GetHosts hm ks)) =
           host_Address ` set (staticHosts hm) \<union> disc_Address ` set (discoveredHosts hm) \<and>
         (\<forall>h \<in> set (GetHosts hm ks).
            (host_Address h \<in> host_Address ` set (staticHosts hm) \<longrightarrow>
               h \<in> set (staticHosts hm) \<and>
               h = last (filter (\<lambda>s. host_Address s = host_Address h) (staticHosts hm))) \<and>
            (host_Address h \<notin> host_Address ` set (staticHosts hm) \<longrightarrow>
               h = \<lparr>host_Address = host_Address h, host_Port = 0, host_Username = [],
                     host_Password = [], host_AuthMethod = [], host_TLSServerCACert = []\<rparr>))"
proof -
  note addrs = GetHosts_addresses [OF assms]
  from assms have ks: "distinct ks" "set ks = dom (allHosts hm)"
    by (simp_all add: range_order_def)
  have entries: "\<forall>h \<in> set (GetHosts hm ks). allHosts hm (host_Address h) = Some h"
  proof
    fix h assume "h \<in> set (GetHosts hm ks)"
    then obtain k where k: "k \<in> set ks" "h = the (allHosts hm k)"
      by (auto simp: GetHosts_map [OF assms])
    with ks obtain h' where h': "allHosts hm k = Some h'" by auto
    with k allHosts_key [OF h'] show "allHosts hm (host_Address h) = Some h" by simp
  qed
  have each: "\<forall>h \<in> set (GetHosts hm ks).
            (host_Address h \<in> host_Address ` set (staticHosts hm) \<longrightarrow>
               h \<in> set (staticHosts hm) \<and>
               h = last (filter (\<lambda>s. host_Address s = host_Address h) (staticHosts hm))) \<and>
            (host_Address h \<notin> host_Address ` set (staticHosts hm) \<longrightarrow>
               h = \<lparr>host_Address = host_Address h, host_Port = 0, host_Username = [],
                     host_Password = [], host_AuthMethod = [], host_TLSServerCACert = []\<rparr>)"
  proof (intro ballI conjI impI)
    fix h assume h: "h \<in> set (GetHosts hm ks)"
    with entries have look: "allHosts hm (host_Address h) = Some h" by blast
    {
      assume st: "host_Address h \<in> host_Address ` set (staticHosts hm)"
      with look show eq: "h = last (filter (\<lambda>s. host_Address s = host_Address h) (staticHosts hm))"
        by (simp add: allHosts_lookup)
      from st have "filter (\<lambda>s. host_Address s = host_Address h) (staticHosts hm) \<noteq> []"
        by (auto simp: filter_empty_conv)
      from last_in_set [OF this] eq show "h \<in> set (staticHosts hm)" by simp
    }
    {
      assume "host_Address h \<notin> host_Address ` set (staticHosts hm)"
      with look show "h = \<lparr>host_Address = host_Address h, host_Port = 0, host_Username = [],
                     host_Password = [], host_AuthMethod = [], host_TLSServerCACert = []\<rparr>"
        by (simp add: allHosts_lookup split: if_splits)
    }
  qed
  from addrs ks each show ?thesis
    by (simp add: allHosts_dom)
qed

theorem C4_one_entry_per_address_witness:
  "distinct (map host_Address (GetHosts
      \<lparr>staticHosts = [\<lparr>host_Address = ''10.0.0.5'', host_Port = 0, host_Username = ''admin'',
                       host_Password = ''secret'', host_AuthMethod = ''basic'',
                       host_TLSServerCACert = []\<rparr>],
       discoveredHosts = [\<lparr>disc_Address = ''10.0.0.9'', ServiceRoot = ''https://10.0.0.9/redfish/v1''\<rparr>,
                          \<lparr>disc_Address = ''10.0.0.5'', ServiceRoot = ''https://10.0.0.5/redfish/v1''\<rparr>]\<rparr>
      [''10.0.0.9'', ''10.0.0.5''])) \<and>
   GetHosts
      \<lparr>staticHosts = [\<lparr>host_Address = ''10.0.0.5'', host_Port = 0, host_Username = ''admin'',
                       host_Password = ''secret'', host_AuthMethod = ''basic'',
                       host_TLSServerCACert = []\<rparr>],
       discoveredHosts = [\<lparr>disc_Address = ''10.0.0.9'', ServiceRoot = ''https://10.0.0.9/redfish/v1''\<rparr>,
                          \<lparr>disc_Address = ''10.0.0.5'', ServiceRoot = ''https://10.0.0.5/redfish/v1''\<rparr>]\<rparr>
      [''10.0.0.9'', ''10.0.0.5''] =
     [\<lparr>host_Address = ''10.0.0.9'', host_Port = 0, host_Username = [], host_Password = [],
       host_AuthMethod = [], host_TLSServerCACert = []\<rparr>,
      \<lparr>host_Address = ''10.0.0.5'', host_Port = 0, host_Username = ''admin'',
       host_Password = ''secret'', host_AuthMethod = ''basic'', host_TLSServerCACert = []\<rparr>]"
proof -
  let ?hm = "\<lparr>staticHosts = [\<lparr>host_Address = ''10.0.0.5'', host_Port = 0, host_Username = ''admin'',
                       host_Password = ''secret'', host_AuthMethod = ''basic'',
                       host_TLSServerCACert = []\<rparr>],
       discoveredHosts = [\<lparr>disc_Address = ''10.0.0.9'', ServiceRoot = ''https://10.0.0.9/redfish/v1''\<rparr>,
                          \<lparr>disc_Address = ''10.0.0.5'', ServiceRoot = ''https://10.0.0.5/redfish/v1''\<rparr>]\<rparr>"
  have order: "range_order (allHosts ?hm) [''10.0.0.9'', ''10.0.0.5'']"
    by (auto simp: range_order_def allHosts_def)
  have run: "GetHosts ?hm [''10.0.0.9'', ''10.0.0.5''] =
     [\<lparr>host_Address = ''10.0.0.9'', host_Port = 0, host_Username = [], host_Password = [],
       host_AuthMethod = [], host_TLSServerCACert = []\<rparr>,
      \<lparr>host_Address = ''10.0.0.5'', host_Port = 0, host_Username = ''admin'',
       host_Password = ''secret'', host_AuthMethod = ''basic'', host_TLSServerCACert = []\<rparr>]"
    by (simp add: GetHosts_def allHosts_def List.map_filter_def)
  from C4_one_entry_per_address [OF order] run show ?thesis
    by simp
qed

section \<open>Properties of discovery\<close>

lemma spaceRunes_nonempty: "r \<in> set spaceRunes \<Longrightarrow> r \<noteq> []"
  by (auto simp: spaceRunes_def)

lemma spaceWidthEnd_pos: "spaceWidthEnd s \<noteq> 0 \<longleftrightarrow> (\<exists>r \<in> set spaceRunes. suffix r s)"
proof (cases "List.find (\<lambda>r. suffix r s) spaceRunes")
  case None
  then have "\<not> (\<exists>r \<in> set spaceRunes. suffix r s)"
    by (auto simp: find_None_iff)
  with None show ?thesis by (simp add: spaceWidthEnd_def)
next
  case (Some r)
  then have "r \<in> set spaceRunes" "suffix r s"
    by (auto simp: find_Some_iff)
  with Some spaceRunes_nonempty [of r] show ?thesis
    by (auto simp: spaceWidthEnd_def)
qed

lemma spaceWidth_prefix:
  assumes "spaceWidth s \<noteq> 0"
  shows "\<exists>r \<in> set spaceRunes. prefix r s \<and> spaceWidth s = length r"
proof (cases "List.find (\<lambda>r. prefix r s) spaceRunes")
  case None
  with assms show ?thesis by (simp add: spaceWidth_def)
next
  case (Some r)
  then have "r \<in> set spaceRunes" "prefix r s"
    by (auto simp: find_Some_iff)
  moreover from Some have "spaceWidth s = length r"
    by (simp add: spaceWidth_def)
  ultimately show ?thesis by blast
qed

lemma TrimRightSpace_trimmed:
  "TrimRightSpace s = [] \<or> spaceWidthEnd (TrimRightSpace s) = 0"
proof (induction s rule: TrimRightSpace.induct)
  case (1 s)
  show ?case
  proof (cases "s = [] \<or> spaceWidthEnd s = 0")
    case True
    then show ?thesis by (auto simp: TrimRightSpace.simps [of s])
  next
    case False
    with "1.IH" show ?thesis by (simp add: TrimRightSpace.simps [of s])
  qed
qed

lemma TrimRightSpace_id: "spaceWidthEnd s = 0 \<Longrightarrow> TrimRightSpace s = s"
  by (simp add: TrimRightSpace.simps [of s])

lemma set_TrimRightSpace: "set (TrimRightSpace s) \<subseteq> set s"
proof (induction s rule: TrimRightSpace.induct)
  case (1 s)
  show ?case
  proof (cases "s = [] \<or> spaceWidthEnd s = 0")
    case True
    then show ?thesis by (auto simp: TrimRightSpace.simps [of s])
  next
    case False
    with "1.IH" set_take_subset [of "length s - spaceWidthEnd s" s] show ?thesis
      by (auto simp: TrimRightSpace.simps [of s])
  qed
qed

lemma suffix_TrimLeftSpace: "suffix (TrimLeftSpace s) s"
proof (induction s rule: TrimLeftSpace.induct)
  case (1 s)
  show ?case
  proof (cases "s = [] \<or> spaceWidth s = 0")
    case True
    then show ?thesis by (auto simp: TrimLeftSpace.simps [of s])
  next
    case False
    with "1.IH" have "suffix (TrimLeftSpace (drop (spaceWidth s) s)) (drop (spaceWidth s) s)"
      by simp
    then have "suffix (TrimLeftSpace (drop (spaceWidth s) s)) s"
      using suffix_drop suffix_order.trans by blast
    with False show ?thesis by (simp add: TrimLeftSpace.simps [of s])
  qed
qed

lemma TrimLeftSpace_empty:
  "TrimLeftSpace s = [] \<Longrightarrow> s = [] \<or> spaceWidthEnd s \<noteq> 0"
proof (induction s rule: TrimLeftSpace.induct)
  case (1 s)
  show ?case
  proof (cases "s = [] \<or> spaceWidth s = 0")
    case True
    with "1.prems" show ?thesis by (auto simp: TrimLeftSpace.simps [of s])
  next
    case False
    with "1.prems" have rest: "TrimLeftSpace (drop (spaceWidth s) s) = []"
      by (simp add: TrimLeftSpace.simps [of s])
    from False obtain r where r: "r \<in> set spaceRunes" "prefix r s" "spaceWidth s = length r"
      using spaceWidth_prefix [of s] by auto
    from "1.IH" False rest
    consider "drop (spaceWidth s) s = []" | "spaceWidthEnd (drop (spaceWidth s) s) \<noteq> 0"
      by auto
    then show ?thesis
    proof cases
      case 1
      with r have "s = r" by (auto simp: prefix_def)
      then have "suffix r s" by simp
      with r(1) have "\<exists>r \<in> set spaceRunes. suffix r s" by blast
      then show ?thesis using spaceWidthEnd_pos [of s] by blast
    next
      case 2
      then obtain r' where "r' \<in> set spaceRunes" "suffix r' (drop (spaceWidth s) s)"
        using spaceWidthEnd_pos [of "drop (spaceWidth s) s"] by blast
      then have "r' \<in> set spaceRunes" "suffix r' s"
        using suffix_drop suffix_order.trans by blast+
      then have "\<exists>r \<in> set spaceRunes. suffix r s" by blast
      then show ?thesis using spaceWidthEnd_pos [of s] by blast
    qed
  qed
qed

lemma reSpace_cases:
  "reSpace c \<Longrightarrow>
   c = CHR 0x09 \<or> c = CHR 0x0A \<or> c = CHR 0x0C \<or> c = CHR 0x0D \<or> c = CHR 0x20"
  by (simp add: reSpace_def)

lemma reSpace_rune:
  assumes "reSpace c"
  shows "[c] \<in> set spaceRunes"
  using reSpace_cases [OF assms] by (elim disjE) (simp_all add: spaceRunes_def)

lemma reSpace_width:
  assumes "reSpace c"
  shows "spaceWidth (c # s) = 1"
  using reSpace_cases [OF assms] by (elim disjE) (simp_all add: spaceWidth_def spaceRunes_def)

lemma TrimLeftSpace_reSpace: "reSpace c \<Longrightarrow> TrimLeftSpace (c # s) = TrimLeftSpace s"
  by (simp add: TrimLeftSpace.simps [of "c # s"] reSpace_width)

lemma TrimLeftSpace_dropWhile: "TrimLeftSpace (dropWhile reSpace s) = TrimLeftSpace s"
  by (induction s) (simp_all add: TrimLeftSpace_reSpace)

lemma Split_nl_nonempty: "Split_nl s \<noteq> []"
  by (induction s) (auto split: list.split)

lemma Split_nl_no_newline: "l \<in> set (Split_nl s) \<Longrightarrow> CHR 0x0A \<notin> set l"
proof (induction s arbitrary: l)
  case Nil
  then show ?case by simp
next
  case (Cons c cs)
  show ?case
  proof (cases "c = CHR 0x0A")
    case True
    with Cons show ?thesis by auto
  next
    case False
    obtain l' ls where sp: "Split_nl cs = l' # ls"
      using Split_nl_nonempty [of cs] by (cases "Split_nl cs") auto
    with False Cons.prems have "l = c # l' \<or> l \<in> set ls" by simp
    with False sp Cons.IH [of l'] Cons.IH [of l] show ?thesis by auto
  qed
qed

lemma trimmed_suffix_no_space:
  assumes "spaceWidthEnd t = 0" and "suffix x t"
  shows "spaceWidthEnd x = 0"
proof (rule ccontr)
  assume "spaceWidthEnd x \<noteq> 0"
  then obtain r where "r \<in> set spaceRunes" "suffix r x"
    using spaceWidthEnd_pos [of x] by blast
  with assms(2) have "\<exists>r \<in> set spaceRunes. suffix r t"
    using suffix_order.trans by blast
  with assms(1) show False
    using spaceWidthEnd_pos [of t] by blast
qed

lemma value_of_trimmed_line:
  assumes tr: "t = [] \<or> spaceWidthEnd t = 0" and nl: "CHR 0x0A \<notin> set t"
      and ne: "rest \<noteq> []" and suf: "suffix rest t"
  shows "dropWhile reSpace rest \<noteq> []"
    and "CHR 0x0A \<notin> set (dropWhile reSpace rest)"
    and "TrimSpace (dropWhile reSpace rest) = TrimSpace rest"
    and "TrimSpace rest \<noteq> []"
proof -
  from ne suf have "t \<noteq> []" by auto
  with tr have t0: "spaceWidthEnd t = 0" by simp
  from t0 suf have rest0: "spaceWidthEnd rest = 0"
    by (rule trimmed_suffix_no_space)
  show "dropWhile reSpace rest \<noteq> []"
  proof
    assume "dropWhile reSpace rest = []"
    then have "\<forall>c \<in> set rest. reSpace c" by simp
    with ne have "reSpace (last rest)" by simp
    then have "[last rest] \<in> set spaceRunes" by (rule reSpace_rune)
    moreover from ne have "suffix [last rest] rest"
      by (metis append_butlast_last_id suffixI)
    ultimately have "spaceWidthEnd rest \<noteq> 0"
      using spaceWidthEnd_pos [of rest] by blast
    with rest0 show False by simp
  qed
  from nl suf show "CHR 0x0A \<notin> set (dropWhile reSpace rest)"
    using set_mono_suffix [OF suf] set_dropWhileD [of _ reSpace rest] by blast
  show "TrimSpace (dropWhile reSpace rest) = TrimSpace rest"
    by (simp add: TrimSpace_def TrimLeftSpace_dropWhile)
  have left: "TrimLeftSpace rest \<noteq> []"
    using TrimLeftSpace_empty [of rest] ne rest0 by blast
  have "suffix (TrimLeftSpace rest) t"
    using suffix_TrimLeftSpace [of rest] suf suffix_order.trans by blast
  with t0 have "spaceWidthEnd (TrimLeftSpace rest) = 0"
    by (rule trimmed_suffix_no_space)
  then have "TrimSpace rest = TrimLeftSpace rest"
    by (simp add: TrimSpace_def TrimRightSpace_id)
  with left show "TrimSpace rest \<noteq> []" by simp
qed

lemma TrimSpace_trimmed:
  "TrimSpace l = [] \<or> spaceWidthEnd (TrimSpace l) = 0"
  by (simp add: TrimSpace_def TrimRightSpace_trimmed)

lemma TrimSpace_no_newline:
  assumes "CHR 0x0A \<notin> set l"
  shows "CHR 0x0A \<notin> set (TrimSpace l)"
  using assms set_TrimRightSpace [of "TrimLeftSpace l"]
    set_mono_suffix [OF suffix_TrimLeftSpace [of l]]
  by (auto simp: TrimSpace_def)

lemma alRegex_on_trimmed_line:
  assumes tr: "t = [] \<or> spaceWidthEnd t = 0" and nl: "CHR 0x0A \<notin> set t"
  shows "map_option TrimSpace (alRegex_FindStringSubmatch t) =
           (if spec_is_AL_header t then Some (spec_AL_value t) else None)"
    and "spec_is_AL_header t \<Longrightarrow> spec_AL_value t \<noteq> []"
proof -
  have both: "map_option TrimSpace (alRegex_FindStringSubmatch t) =
           (if spec_is_AL_header t then Some (spec_AL_value t) else None) \<and>
         (spec_is_AL_header t \<longrightarrow> spec_AL_value t \<noteq> [])"
  proof (cases "\<exists>a l colon rest. t = a # l # colon # rest")
    case False
    then have "alRegex_FindStringSubmatch t = None" "\<not> spec_is_AL_header t"
      by (auto simp: alRegex_FindStringSubmatch_def spec_is_AL_header_def split: list.splits)
    then show ?thesis by simp
  next
    case True
    then obtain a l colon rest where t: "t = a # l # colon # rest" by blast
    show ?thesis
    proof (cases "(a = CHR ''A'' \<or> a = CHR ''a'') \<and> (l = CHR ''L'' \<or> l = CHR ''l'') \<and>
                  colon = CHR '':'' \<and> rest \<noteq> []")
      case False
      then have "alRegex_FindStringSubmatch t = None" "\<not> spec_is_AL_header t"
        by (auto simp: t alRegex_FindStringSubmatch_def spec_is_AL_header_def)
      then show ?thesis by simp
    next
      case True
      then have ne: "rest \<noteq> []" by simp
      have suf: "suffix rest t" by (simp add: t suffix_def)
      note v = value_of_trimmed_line [OF tr nl ne suf]
      from True v(1,2) have re: "alRegex_FindStringSubmatch t = Some (dropWhile reSpace rest)"
        by (simp add: t alRegex_FindStringSubmatch_def)
      from True have sp: "spec_is_AL_header t"
        by (simp add: t spec_is_AL_header_def)
      have val: "spec_AL_value t = TrimSpace rest"
        by (simp add: t spec_AL_value_def)
      from re sp val v(3,4) show ?thesis by simp
    qed
  qed
  from both show "map_option TrimSpace (alRegex_FindStringSubmatch t) =
           (if spec_is_AL_header t then Some (spec_AL_value t) else None)" by simp
  from both show "spec_is_AL_header t \<Longrightarrow> spec_AL_value t \<noteq> []" by simp
qed

lemma parseAL_lines_find:
  assumes "\<forall>l \<in> set ls. CHR 0x0A \<notin> set l"
  shows "parseAL_lines ls =
           (case List.find spec_is_AL_header (map TrimSpace ls) of
              None \<Rightarrow> [] | Some t \<Rightarrow> spec_AL_value t)"
  using assms
proof (induction ls)
  case Nil
  then show ?case by simp
next
  case (Cons l ls)
  from Cons.prems have nl: "CHR 0x0A \<notin> set (TrimSpace l)"
    by (simp add: TrimSpace_no_newline)
  note re = alRegex_on_trimmed_line(1) [OF TrimSpace_trimmed nl]
  show ?case
  proof (cases "spec_is_AL_header (TrimSpace l)")
    case True
    with re obtain g where "alRegex_FindStringSubmatch (TrimSpace l) = Some g"
      "TrimSpace g = spec_AL_value (TrimSpace l)"
      by (cases "alRegex_FindStringSubmatch (TrimSpace l)") auto
    with True show ?thesis by simp
  next
    case False
    with re have "alRegex_FindStringSubmatch (TrimSpace l) = None"
      by (cases "alRegex_FindStringSubmatch (TrimSpace l)") auto
    with False Cons show ?thesis by simp
  qed
qed

lemma parseAL_spec:
  "parseAL response = (case spec_first_AL_header response of None \<Rightarrow> [] | Some uri \<Rightarrow> uri)"
  by (simp add: parseAL_def spec_first_AL_header_def parseAL_lines_find Split_nl_no_newline
        split: option.split)

lemma spec_first_AL_header_nonempty:
  assumes "spec_first_AL_header response = Some uri"
  shows "uri \<noteq> []"
proof -
  from assms obtain t where
    t: "List.find spec_is_AL_header (map TrimSpace (Split_nl response)) = Some t"
      "uri = spec_AL_value t"
    by (auto simp: spec_first_AL_header_def split: option.splits)
  then have "spec_is_AL_header t" "t \<in> set (map TrimSpace (Split_nl response))"
    by (auto simp: find_Some_iff)
  then obtain l where l: "l \<in> set (Split_nl response)" "t = TrimSpace l" by auto
  then have "CHR 0x0A \<notin> set t"
    by (simp add: TrimSpace_no_newline Split_nl_no_newline)
  from alRegex_on_trimmed_line(2) [OF _ this \<open>spec_is_AL_header t\<close>] l(2) t(2) show ?thesis
    by (simp add: TrimSpace_trimmed)
qed

lemma pathRegex_exact:
  "pathRegex_MatchString s \<longleftrightarrow> s = ''/redfish/v1'' \<or> s = ''/redfish/v1/''"
proof
  assume "pathRegex_MatchString s"
  then obtain zs where "s = ''/redfish/v1'' @ zs" "zs = [] \<or> zs = ''/''"
    by (auto simp: pathRegex_MatchString_def prefix_def)
  then show "s = ''/redfish/v1'' \<or> s = ''/redfish/v1/''" by auto
next
  assume "s = ''/redfish/v1'' \<or> s = ''/redfish/v1/''"
  then show "pathRegex_MatchString s"
    by (auto simp: pathRegex_MatchString_def)
qed

lemma code_check_is_spec_check:
  "parseAL response \<noteq> [] \<and> isValidServiceRoot url_Parse (parseAL response) \<longleftrightarrow>
   spec_contributes url_Parse response"
proof (cases "spec_first_AL_header response")
  case None
  then show ?thesis by (simp add: parseAL_spec spec_contributes_def)
next
  case (Some uri)
  with spec_first_AL_header_nonempty [OF Some] show ?thesis
    by (auto simp: parseAL_spec spec_contributes_def isValidServiceRoot_def pathRegex_exact
          split: option.split)
qed

lemma readLoop_filter:
  "readLoop url_Parse rs hosts =
     hosts @ map (\<lambda>(addr, response). \<lparr>disc_Address = addr, ServiceRoot = parseAL response\<rparr>)
               (filter (\<lambda>(addr, response). spec_contributes url_Parse response)
                  (spec_responses rs))"
proof (induction url_Parse rs hosts rule: readLoop.induct)
  case (4 url_Parse addr response rs hosts)
  then show ?case
    using code_check_is_spec_check [of response url_Parse] by auto
qed simp_all

text \<open>
  C5. In a discovery cycle whose socket was opened and whose query was sent, the hosts
  returned are exactly the responses read before the timeout that pass both checks of
  the specification, in the order read, each with the sender's address and the value
  of its AL header: the first line that, trimmed, starts with \<^verbatim>\<open>AL:\<close> in any letter case
  and has a value, where that value parses as a URI with scheme \<^verbatim>\<open>https\<close>, a non-empty
  host and the path \<^verbatim>\<open>/redfish/v1\<close> or \<^verbatim>\<open>/redfish/v1/\<close>. Every other response, and every
  failed read that is not the timeout, is skipped and the loop goes on. When no
  response passes, the result is the empty list and no error. A response is the text
  the read put into the buffer.
\<close>

theorem C5_discovery_validation:
  assumes "DialUDP_error net = None" and "Write_error net = None"
  shows "Discover url_Parse net =
           Inr (map (\<lambda>(addr, response). \<lparr>disc_Address = addr, ServiceRoot = parseAL response\<rparr>)
                  (filter (\<lambda>(addr, response). spec_contributes url_Parse response)
                     (spec_responses (reads net)))) \<and>
         (\<forall>response. parseAL response =
            (case spec_first_AL_header response of None \<Rightarrow> [] | Some uri \<Rightarrow> uri)) \<and>
         (filter (\<lambda>(addr, response). spec_contributes url_Parse response)
            (spec_responses (reads net)) = [] \<longrightarrow>
          Discover url_Parse net = Inr [])"
  using assms by (simp add: Discover_def readLoop_filter parseAL_spec [symmetric])

theorem C5_discovery_validation_witness:
  "Discover
     (\<lambda>uri. if uri = ''https://h/redfish/v1/'' then
              Some \<lparr>Scheme = ''https'', Host = ''h'', Path = ''/redfish/v1/''\<rparr>
            else if uri = ''http://h/redfish/v1'' then
              Some \<lparr>Scheme = ''http'', Host = ''h'', Path = ''/redfish/v1''\<rparr>
            else None)
     \<lparr>DialUDP_error = None, Write_error = None,
      reads = [ReadFrom ''10.0.0.9''
                 (''HTTP/1.1 200 OK'' @ [CHR 0x0D, CHR 0x0A] @
                  ''al: https://h/redfish/v1/'' @ [CHR 0x0D, CHR 0x0A]),
               ReadFrom ''10.0.0.7'' ''AL: http://h/redfish/v1'',
               ReadError ''connection refused'',
               ReadFrom ''10.0.0.8'' ''ST: upnp:rootdevice'',
               ReadTimeout]\<rparr> =
   Inr [\<lparr>disc_Address = ''10.0.0.9'', ServiceRoot = ''https://h/redfish/v1/''\<rparr>]"
  using C5_discovery_validation
    [of "\<lparr>DialUDP_error = None, Write_error = None,
      reads = [ReadFrom ''10.0.0.9''
                 (''HTTP/1.1 200 OK'' @ [CHR 0x0D, CHR 0x0A] @
                  ''al: https://h/redfish/v1/'' @ [CHR 0x0D, CHR 0x0A]),
               ReadFrom ''10.0.0.7'' ''AL: http://h/redfish/v1'',
               ReadError ''connection refused'',
               ReadFrom ''10.0.0.8'' ''ST: upnp:rootdevice'',
               ReadTimeout]\<rparr>"
        "(\<lambda>uri. if uri = ''https://h/redfish/v1/'' then
              Some \<lparr>Scheme = ''https'', Host = ''h'', Path = ''/redfish/v1/''\<rparr>
            else if uri = ''http://h/redfish/v1'' then
              Some \<lparr>Scheme = ''http'', Host = ''h'', Path = ''/redfish/v1''\<rparr>
            else None)"]
  by (simp add: spec_contributes_def spec_first_AL_header_def spec_is_AL_header_def
        spec_AL_value_def TrimSpace_def TrimLeftSpace.simps TrimRightSpace.simps
        spaceWidth_def spaceWidthEnd_def spaceRunes_def suffix_Cons)

end
